theory Spec2Isabelle
  imports Complex_Main
begin

section \<open>Workflow metrics of the diagnostics package\<close>

text \<open>
  A shallow embedding of \<^verbatim>\<open>pkg/diagnostics/workflow_monitoring.go\<close>: the
  \<^verbatim>\<open>workflowMetrics\<close> struct, its constructor, \<^verbatim>\<open>IsEnabled\<close>, \<^verbatim>\<open>Init\<close> and the
  two recording entry points. The struct is reached through a pointer receiver that may
  be nil, so every method takes a \<open>workflowMetrics option\<close> (\<open>None\<close> is the nil pointer,
  \<open>Some m\<close> a pointer to a struct with contents \<open>m\<close>) and returns the contents it leaves
  behind. The aggregation backend (the stats, tag and view packages the file imports) is
  an explicit state: the views registered so far and the recording calls received so far.
\<close>

subsection \<open>Tag keys and string constants\<close>

text \<open>A \<^verbatim>\<open>tag.Key\<close> is identified by the name it was created with.\<close>

type_synonym key = string

definition executionTypeKey :: key where
  "executionTypeKey = ''execution_type''"

text \<open>
  Modelled from the spec: the keys \<^verbatim>\<open>appIDKey\<close>, \<^verbatim>\<open>componentKey\<close>, \<^verbatim>\<open>namespaceKey\<close>,
  \<^verbatim>\<open>operationKey\<close> and \<^verbatim>\<open>statusKey\<close> are package-level variables declared in another
  file of the package, which is not among the sources. Their names are the ones the spec
  shows in its tagged observations (\<^verbatim>\<open>app_id\<close>, \<^verbatim>\<open>component\<close>, \<^verbatim>\<open>namespace\<close>,
  \<^verbatim>\<open>operation\<close>, \<^verbatim>\<open>status\<close>).
\<close>

definition appIDKey :: key where
  "appIDKey = ''app_id''"

definition componentKey :: key where
  "componentKey = ''component''"

definition namespaceKey :: key where
  "namespaceKey = ''namespace''"

definition operationKey :: key where
  "operationKey = ''operation''"

definition statusKey :: key where
  "statusKey = ''status''"

definition StatusSuccess :: string where
  "StatusSuccess = ''success''"

definition StatusFailed :: string where
  "StatusFailed = ''failed''"

definition StatusRecoverable :: string where
  "StatusRecoverable = ''recoverable''"

definition CreateWorkflow :: string where
  "CreateWorkflow = ''create_workflow''"

definition GetWorkflow :: string where
  "GetWorkflow = ''get_workflow''"

definition AddEvent :: string where
  "AddEvent = ''add_event''"

definition PurgeWorkflow :: string where
  "PurgeWorkflow = ''purge_workflow''"

definition Activity :: string where
  "Activity = ''activity''"

definition Workflow :: string where
  "Workflow = ''workflow''"

definition WorkflowEvent :: string where
  "WorkflowEvent = ''event''"

definition Timer :: string where
  "Timer = ''timer''"

definition ComponentName :: string where
  "ComponentName = ''dapr''"

subsection \<open>Elapsed times\<close>

text \<open>
  \<^verbatim>\<open>elapsed\<close> is a \<^verbatim>\<open>float64\<close>. The code only compares it with zero and hands it on,
  so a value is a real number, an infinity or a NaN; \<open>gt_zero\<close> is Go's \<^verbatim>\<open>elapsed > 0\<close>,
  which is false for a NaN.
\<close>

datatype float64 = Finite real | PosInf | NegInf | NaN

fun gt_zero :: "float64 \<Rightarrow> bool" where
  "gt_zero (Finite r) = (0 < r)"
| "gt_zero PosInf = True"
| "gt_zero NegInf = False"
| "gt_zero NaN = False"

subsection \<open>Measures, measurements and views\<close>

text \<open>
  A measure handle (\<^verbatim>\<open>*stats.Int64Measure\<close>, \<^verbatim>\<open>*stats.Float64Measure\<close>) is what
  \<^verbatim>\<open>stats.Int64\<close> and \<^verbatim>\<open>stats.Float64\<close> were given: a name, a description and a unit.
  Both constructors always return a handle, and \<^verbatim>\<open>newWorkflowMetrics\<close> is the only place
  the struct is built, so the four handle fields are never nil and are modelled as the
  descriptors themselves.
\<close>

record measure =
  measureName :: string
  measureDescription :: string
  measureUnit :: string

definition UnitDimensionless :: string where
  "UnitDimensionless = ''1''"

definition UnitMilliseconds :: string where
  "UnitMilliseconds = ''ms''"

definition Int64 :: "string \<Rightarrow> string \<Rightarrow> string \<Rightarrow> measure" where
  "Int64 n d u = \<lparr>measureName = n, measureDescription = d, measureUnit = u\<rparr>"

definition Float64 :: "string \<Rightarrow> string \<Rightarrow> string \<Rightarrow> measure" where
  "Float64 n d u = \<lparr>measureName = n, measureDescription = d, measureUnit = u\<rparr>"

text \<open>
  \<^verbatim>\<open>m.M(v)\<close> pairs a measure with a value: an \<^verbatim>\<open>int64\<close> for a counter (the code only
  ever passes the literal 1) and a \<^verbatim>\<open>float64\<close> for a latency.
\<close>

datatype measurement = Int64M measure int | Float64M measure float64

datatype aggregation = Count | Distribution

text \<open>
  Modelled from the spec: \<^verbatim>\<open>defaultLatencyDistribution\<close> is declared in another file of
  the package, which is not among the sources. The spec calls it a fixed latency-bucket
  histogram; its bucket bounds play no part below.
\<close>

definition defaultLatencyDistribution :: aggregation where
  "defaultLatencyDistribution = Distribution"

record view =
  viewName :: string
  viewDescription :: string
  viewMeasure :: measure
  viewTagKeys :: "key list"
  viewAggregation :: aggregation

text \<open>
  Modelled from the spec: \<^verbatim>\<open>diagUtils.NewMeasureView\<close> lives in the package
  \<^verbatim>\<open>pkg/diagnostics/utils\<close>, which is not among the sources. By the spec a view binds
  one measure to an ordered set of tag keys and an aggregation, one view per measure; the
  view carries the name and the description of its measure.
\<close>

definition NewMeasureView :: "measure \<Rightarrow> key list \<Rightarrow> aggregation \<Rightarrow> view" where
  "NewMeasureView m keys agg =
     \<lparr>viewName = measureName m, viewDescription = measureDescription m,
      viewMeasure = m, viewTagKeys = keys, viewAggregation = agg\<rparr>"

datatype mutator = Upsert key string

text \<open>
  Modelled from the spec: \<^verbatim>\<open>diagUtils.WithTags\<close> lives in the package
  \<^verbatim>\<open>pkg/diagnostics/utils\<close>, which is not among the sources. By the spec (the tag resolver)
  it produces, from the key and value pairs it is given, the ordered key-value pairs of the
  observation; the measure name it receives first does not appear in them.
\<close>

definition WithTags :: "string \<Rightarrow> (key \<times> string) list \<Rightarrow> mutator list" where
  "WithTags name opts = map (\<lambda>kv. Upsert (fst kv) (snd kv)) opts"

subsection \<open>The aggregation backend\<close>

text \<open>
  One call of \<^verbatim>\<open>stats.RecordWithTags(ctx, mutators, measurements...)\<close>, as the backend
  receives it. The context is handed through untouched, so its type is a parameter.
\<close>

record 'c recordCall =
  callCtx :: 'c
  callMutators :: "mutator list"
  callMeasurements :: "measurement list"

record 'c backend =
  registered :: "view list"
  recorded :: "'c recordCall list"

datatype error = RegistrationError

fun lookupView :: "string \<Rightarrow> view list \<Rightarrow> view option" where
  "lookupView n [] = None"
| "lookupView n (v # vs) = (if viewName v = n then Some v else lookupView n vs)"

definition compatible :: "view \<Rightarrow> view \<Rightarrow> bool" where
  "compatible v v' =
     (set (viewTagKeys v) = set (viewTagKeys v') \<and> viewAggregation v = viewAggregation v')"

text \<open>
  Modelled from the spec: \<^verbatim>\<open>view.Register\<close> belongs to the external aggregation backend.
  By the spec a registration fails with a RegistrationError when a view with the same
  name already exists with a different tag-key set or aggregation. The views are taken in
  order; a view whose name is new is added, one that agrees with the registered view of
  its name changes nothing, and one that disagrees makes the call fail. The spec leaves
  open what a failed call does with its other views; here they are still registered.
\<close>

fun registerViews :: "view list \<Rightarrow> view list \<Rightarrow> error option \<times> view list" where
  "registerViews [] reg = (None, reg)"
| "registerViews (v # vs) reg =
     (case lookupView (viewName v) reg of
        None \<Rightarrow> registerViews vs (reg @ [v])
      | Some v' \<Rightarrow>
          if compatible v v' then registerViews vs reg
          else (Some RegistrationError, snd (registerViews vs reg)))"

definition Register :: "view list \<Rightarrow> 'c backend \<Rightarrow> error option \<times> 'c backend" where
  "Register vs b =
     (fst (registerViews vs (registered b)),
      b\<lparr>registered := snd (registerViews vs (registered b))\<rparr>)"

text \<open>
  \<^verbatim>\<open>stats.RecordWithTags\<close> hands one observation to the backend. Its error result is
  discarded at both call sites, so the model returns the backend only.
\<close>

definition RecordWithTags ::
  "'c \<Rightarrow> mutator list \<Rightarrow> measurement list \<Rightarrow> 'c backend \<Rightarrow> 'c backend" where
  "RecordWithTags ctx mutators ms b =
     b\<lparr>recorded := recorded b @
        [\<lparr>callCtx = ctx, callMutators = mutators, callMeasurements = ms\<rparr>]\<rparr>"

subsection \<open>The metrics struct and its methods\<close>

record workflowMetrics =
  workflowOperationCount :: measure
  workflowOperationLatency :: measure
  workflowExecutionCount :: measure
  workflowExecutionLatency :: measure
  appID :: string
  enabled :: bool
  namespace :: string

definition newWorkflowMetrics :: workflowMetrics where
  "newWorkflowMetrics =
     \<lparr>workflowOperationCount = Int64
        ''runtime/workflow/operation/count''
        ''The number of successful/failed workflow operation requests.''
        UnitDimensionless,
      workflowOperationLatency = Float64
        ''runtime/workflow/operation/latency''
        ''The latencies of responses for workflow operation requests.''
        UnitMilliseconds,
      workflowExecutionCount = Int64
        ''runtime/workflow/execution/count''
        ''The number of successful/failed/recoverable workflow/activity executions.''
        UnitDimensionless,
      workflowExecutionLatency = Float64
        ''runtime/workflow/execution/latency''
        ''The total time taken to run a workflow/activity to completion.''
        UnitMilliseconds,
      appID = '''',
      enabled = False,
      namespace = ''''\<rparr>"

text \<open>\<^verbatim>\<open>return w != nil && w.enabled\<close>: the right operand is read only when \<open>w\<close> is not nil.\<close>

definition IsEnabled :: "workflowMetrics option \<Rightarrow> bool" where
  "IsEnabled w = (case w of None \<Rightarrow> False | Some m \<Rightarrow> enabled m)"

text \<open>
  A method either returns or panics. The only panic in the file is a field access through
  a nil receiver.
\<close>

datatype 'a outcome = Panic | Return 'a

text \<open>
  \<^verbatim>\<open>Init\<close> writes the three fields in the order of the source and then returns whatever
  \<^verbatim>\<open>view.Register\<close> returns. The result is the error, the contents of the receiver and
  the backend.
\<close>

definition Init ::
  "string \<Rightarrow> string \<Rightarrow> workflowMetrics option \<Rightarrow> 'c backend \<Rightarrow>
     (error option \<times> workflowMetrics option \<times> 'c backend) outcome" where
  "Init appID' namespace' w b =
     (case w of
        None \<Rightarrow> Panic
      | Some m \<Rightarrow>
          (let m1 = m\<lparr>appID := appID'\<rparr>;
               m2 = m1\<lparr>enabled := True\<rparr>;
               m3 = m2\<lparr>namespace := namespace'\<rparr>;
               r = Register
                 [NewMeasureView (workflowOperationCount m3)
                    [appIDKey, componentKey, namespaceKey, operationKey, statusKey] Count,
                  NewMeasureView (workflowOperationLatency m3)
                    [appIDKey, componentKey, namespaceKey, operationKey, statusKey]
                    defaultLatencyDistribution,
                  NewMeasureView (workflowExecutionCount m3)
                    [appIDKey, componentKey, namespaceKey, executionTypeKey, statusKey] Count,
                  NewMeasureView (workflowExecutionLatency m3)
                    [appIDKey, componentKey, namespaceKey, executionTypeKey, statusKey]
                    defaultLatencyDistribution] b
           in Return (fst r, Some m3, snd r)))"

text \<open>
  The two recording entry points. After the \<^verbatim>\<open>IsEnabled\<close> guard the code reads fields of
  \<open>w\<close>; through a nil pointer that would panic, which the model keeps as a branch.
\<close>

definition WorkflowOperationEvent ::
  "'c \<Rightarrow> string \<Rightarrow> string \<Rightarrow> string \<Rightarrow> float64 \<Rightarrow> workflowMetrics option \<Rightarrow> 'c backend \<Rightarrow>
     (workflowMetrics option \<times> 'c backend) outcome" where
  "WorkflowOperationEvent ctx operation component status elapsed w b =
     (if \<not> IsEnabled w then Return (w, b)
      else
        (case w of
           None \<Rightarrow> Panic
         | Some m \<Rightarrow>
             (let b1 = RecordWithTags ctx
                    (WithTags (measureName (workflowOperationCount m))
                       [(appIDKey, appID m), (componentKey, component),
                        (namespaceKey, namespace m), (operationKey, operation),
                        (statusKey, status)])
                    [Int64M (workflowOperationCount m) 1] b;
                  b2 = (if gt_zero elapsed
                        then RecordWithTags ctx
                          (WithTags (measureName (workflowOperationLatency m))
                             [(appIDKey, appID m), (componentKey, component),
                              (namespaceKey, namespace m), (operationKey, operation),
                              (statusKey, status)])
                          [Float64M (workflowOperationLatency m) elapsed] b1
                        else b1)
              in Return (w, b2))))"

definition ExecutionEvent ::
  "'c \<Rightarrow> string \<Rightarrow> string \<Rightarrow> string \<Rightarrow> float64 \<Rightarrow> workflowMetrics option \<Rightarrow> 'c backend \<Rightarrow>
     (workflowMetrics option \<times> 'c backend) outcome" where
  "ExecutionEvent ctx component executionType status elapsed w b =
     (if \<not> IsEnabled w then Return (w, b)
      else
        (case w of
           None \<Rightarrow> Panic
         | Some m \<Rightarrow>
             (let b1 = RecordWithTags ctx
                    (WithTags (measureName (workflowExecutionCount m))
                       [(appIDKey, appID m), (componentKey, component),
                        (namespaceKey, namespace m), (executionTypeKey, executionType),
                        (statusKey, status)])
                    [Int64M (workflowExecutionCount m) 1] b;
                  b2 = (if gt_zero elapsed
                        then RecordWithTags ctx
                          (WithTags (measureName (workflowExecutionLatency m))
                             [(appIDKey, appID m), (componentKey, component),
                              (namespaceKey, namespace m), (executionTypeKey, executionType),
                              (statusKey, status)])
                          [Float64M (workflowExecutionLatency m) elapsed] b1
                        else b1)
              in Return (w, b2))))"

subsection \<open>Sequences of calls\<close>

text \<open>
  The calls a host can make on one \<^verbatim>\<open>workflowMetrics\<close>, and the state they leave behind:
  the contents of the receiver and the backend. The error \<^verbatim>\<open>Init\<close> returns goes to the
  caller and is not part of the state. \<open>lastInit\<close> gives the arguments of the most recent
  \<^verbatim>\<open>Init\<close> of a sequence.
\<close>

datatype 'c call =
    InitCall string string
  | WorkflowOperationEventCall 'c string string string float64
  | ExecutionEventCall 'c string string string float64

fun step ::
  "'c call \<Rightarrow> workflowMetrics option \<times> 'c backend \<Rightarrow>
     (workflowMetrics option \<times> 'c backend) outcome" where
  "step (InitCall a n) (w, b) =
     (case Init a n w b of Panic \<Rightarrow> Panic | Return r \<Rightarrow> Return (snd r))"
| "step (WorkflowOperationEventCall ctx operation component status elapsed) (w, b) =
     WorkflowOperationEvent ctx operation component status elapsed w b"
| "step (ExecutionEventCall ctx component executionType status elapsed) (w, b) =
     ExecutionEvent ctx component executionType status elapsed w b"

fun run ::
  "'c call list \<Rightarrow> workflowMetrics option \<times> 'c backend \<Rightarrow>
     (workflowMetrics option \<times> 'c backend) outcome" where
  "run [] s = Return s"
| "run (c # cs) s = (case step c s of Panic \<Rightarrow> Panic | Return s' \<Rightarrow> run cs s')"

fun lastInit :: "'c call list \<Rightarrow> (string \<times> string) option" where
  "lastInit [] = None"
| "lastInit (c # cs) =
     (case lastInit cs of
        Some p \<Rightarrow> Some p
      | None \<Rightarrow> (case c of InitCall a n \<Rightarrow> Some (a, n) | _ \<Rightarrow> None))"

subsection \<open>Concrete states\<close>

text \<open>
  The backend of a fresh process, and the struct after \<^verbatim>\<open>Init("a1", "ns1")\<close>, the example
  of the spec.
\<close>

definition freshBackend :: "unit backend" where
  "freshBackend = \<lparr>registered = [], recorded = []\<rparr>"

definition initialised :: workflowMetrics where
  "initialised = newWorkflowMetrics\<lparr>appID := ''a1'', enabled := True, namespace := ''ns1''\<rparr>"

text \<open>
  The four views \<^verbatim>\<open>Init\<close> registers for the measures of \<^verbatim>\<open>newWorkflowMetrics\<close>, in the
  order of the source.
\<close>

definition operationCountView :: view where
  "operationCountView =
     NewMeasureView (workflowOperationCount newWorkflowMetrics)
       [appIDKey, componentKey, namespaceKey, operationKey, statusKey] Count"

definition operationLatencyView :: view where
  "operationLatencyView =
     NewMeasureView (workflowOperationLatency newWorkflowMetrics)
       [appIDKey, componentKey, namespaceKey, operationKey, statusKey]
       defaultLatencyDistribution"

definition executionCountView :: view where
  "executionCountView =
     NewMeasureView (workflowExecutionCount newWorkflowMetrics)
       [appIDKey, componentKey, namespaceKey, executionTypeKey, statusKey] Count"

definition executionLatencyView :: view where
  "executionLatencyView =
     NewMeasureView (workflowExecutionLatency newWorkflowMetrics)
       [appIDKey, componentKey, namespaceKey, executionTypeKey, statusKey]
       defaultLatencyDistribution"

text \<open>
  \<^verbatim>\<open>pkg/diagnostics/workflow_metrics.go\<close>, the earlier variant of the file, declares the
  measure \<^verbatim>\<open>runtime/workflow/execution/latency\<close> with the same description and unit,
  and its \<^verbatim>\<open>Init\<close> registers it under the tag keys \<^verbatim>\<open>appIDKey, executionTypeKey,
  statusKey\<close>: a view of the same name with a different tag-key set.
\<close>

definition earlierExecutionLatencyView :: view where
  "earlierExecutionLatencyView =
     NewMeasureView
       (Float64 ''runtime/workflow/execution/latency''
          ''The total time taken to run a workflow/activity to completion.''
          UnitMilliseconds)
       [appIDKey, executionTypeKey, statusKey] defaultLatencyDistribution"

definition occupiedBackend :: "unit backend" where
  "occupiedBackend = \<lparr>registered = [earlierExecutionLatencyView], recorded = []\<rparr>"

text \<open>The backend after \<^verbatim>\<open>Init\<close> on the fresh one, and after \<^verbatim>\<open>Init\<close> on the occupied one.\<close>

definition afterInit :: "unit backend" where
  "afterInit =
     \<lparr>registered = [operationCountView, operationLatencyView, executionCountView,
        executionLatencyView], recorded = []\<rparr>"

definition afterFailedInit :: "unit backend" where
  "afterFailedInit =
     \<lparr>registered = [earlierExecutionLatencyView, operationCountView, operationLatencyView,
        executionCountView], recorded = []\<rparr>"

subsection \<open>The stores of Init, one at a time\<close>

text \<open>
  \<^verbatim>\<open>Init\<close> writes \<^verbatim>\<open>w.appID\<close>, \<^verbatim>\<open>w.enabled\<close> and \<^verbatim>\<open>w.namespace\<close> with three plain
  assignments, in this order, and the file holds no lock, atomic or once around them or
  around the reads of \<^verbatim>\<open>IsEnabled\<close> and of the recording calls. \<open>InitStores\<close> lists the
  contents of the struct in program order: before the call and after each of the three
  stores. A call that runs on the same struct between two of the stores reads the
  contents at that point. The last entry is what \<^verbatim>\<open>Init\<close> leaves behind.
\<close>

definition InitStores :: "string \<Rightarrow> string \<Rightarrow> workflowMetrics \<Rightarrow> workflowMetrics list" where
  "InitStores appID' namespace' m =
     (let m1 = m\<lparr>appID := appID'\<rparr>;
          m2 = m1\<lparr>enabled := True\<rparr>;
          m3 = m2\<lparr>namespace := namespace'\<rparr>
      in [m, m1, m2, m3])"

text \<open>
  The fresh struct in the middle of \<^verbatim>\<open>Init("a1", "ns1")\<close>: \<open>appID\<close> and \<open>enabled\<close> are
  stored, \<open>namespace\<close> is not yet.
\<close>

definition halfInitialised :: workflowMetrics where
  "halfInitialised = newWorkflowMetrics\<lparr>appID := ''a1'', enabled := True\<rparr>"

section \<open>Properties\<close>

subsection \<open>Registering the same views again\<close>

text \<open>
  A view is settled in a registry when the registry holds a view of its name that agrees
  with it. A registration that succeeds leaves each of its views settled, and registering
  settled views changes nothing.
\<close>

definition settled :: "view list \<Rightarrow> view \<Rightarrow> bool" where
  "settled reg v =
     (case lookupView (viewName v) reg of None \<Rightarrow> False | Some v' \<Rightarrow> compatible v v')"

lemma registerViews_extends: "\<exists>xs. snd (registerViews vs reg) = reg @ xs"
proof (induction vs arbitrary: reg)
  case Nil
  show ?case by simp
next
  case (Cons v vs)
  show ?case
  proof (cases "lookupView (viewName v) reg")
    case None
    from Cons.IH [of "reg @ [v]"] obtain xs
      where "snd (registerViews vs (reg @ [v])) = (reg @ [v]) @ xs" ..
    with None show ?thesis by simp
  next
    case (Some v')
    from Cons.IH [of reg] obtain xs where "snd (registerViews vs reg) = reg @ xs" ..
    with Some show ?thesis by simp
  qed
qed

lemma lookupView_append:
  "lookupView n reg = Some v \<Longrightarrow> lookupView n (reg @ xs) = Some v"
  by (induction reg) (auto split: if_splits)

lemma lookupView_snoc:
  "lookupView (viewName v) reg = None \<Longrightarrow> lookupView (viewName v) (reg @ [v]) = Some v"
  by (induction reg) (auto split: if_splits)

lemma settled_append: "settled reg v \<Longrightarrow> settled (reg @ xs) v"
  by (auto simp: settled_def lookupView_append split: option.splits)

lemma settled_registerViews: "settled reg v \<Longrightarrow> settled (snd (registerViews vs reg)) v"
proof -
  assume s: "settled reg v"
  obtain xs where "snd (registerViews vs reg) = reg @ xs"
    using registerViews_extends by blast
  with s show ?thesis by (simp add: settled_append)
qed

lemma compatible_refl: "compatible v v"
  by (simp add: compatible_def)

lemma registerViews_settles:
  "fst (registerViews vs reg) = None \<Longrightarrow> list_all (settled (snd (registerViews vs reg))) vs"
proof (induction vs arbitrary: reg)
  case Nil
  show ?case by simp
next
  case (Cons v vs)
  show ?case
  proof (cases "lookupView (viewName v) reg")
    case None
    have "settled (reg @ [v]) v"
      using None by (simp add: settled_def lookupView_snoc compatible_refl)
    then have "settled (snd (registerViews vs (reg @ [v]))) v"
      by (rule settled_registerViews)
    moreover have "list_all (settled (snd (registerViews vs (reg @ [v])))) vs"
      using Cons.prems None by (intro Cons.IH) simp
    ultimately show ?thesis using None by simp
  next
    case (Some v')
    with Cons.prems have c: "compatible v v'" and f: "fst (registerViews vs reg) = None"
      by (auto split: if_splits)
    have "settled reg v" using Some c by (simp add: settled_def)
    then have "settled (snd (registerViews vs reg)) v" by (rule settled_registerViews)
    moreover have "list_all (settled (snd (registerViews vs reg))) vs"
      using f by (rule Cons.IH)
    ultimately show ?thesis using Some c by simp
  qed
qed

lemma registerViews_settled:
  "list_all (settled reg) vs \<Longrightarrow> registerViews vs reg = (None, reg)"
  by (induction vs) (auto simp: settled_def split: option.splits)

lemma registerViews_idem:
  assumes "fst (registerViews vs reg) = None"
  shows "registerViews vs (snd (registerViews vs reg)) = (None, snd (registerViews vs reg))"
  using assms by (intro registerViews_settled registerViews_settles)

lemma Register_idem:
  "Register vs b = (None, b1) \<Longrightarrow> Register vs b1 = (None, b1)"
  by (auto simp: Register_def registerViews_idem)

lemma keys_differ:
  "set [appIDKey, componentKey, namespaceKey, executionTypeKey, statusKey] \<noteq>
   set [appIDKey, executionTypeKey, statusKey]"
proof
  assume "set [appIDKey, componentKey, namespaceKey, executionTypeKey, statusKey] =
    set [appIDKey, executionTypeKey, statusKey]"
  then have "componentKey \<in> set [appIDKey, executionTypeKey, statusKey]" by auto
  then show False
    by (simp add: appIDKey_def componentKey_def executionTypeKey_def statusKey_def)
qed

subsection \<open>What a sequence of calls leaves in the struct\<close>

lemma step_fields:
  "\<exists>m' b'. step c (Some m, b) = Return (Some m', b') \<and>
     (appID m', namespace m', enabled m') =
       (case c of InitCall a n \<Rightarrow> (a, n, True) | _ \<Rightarrow> (appID m, namespace m, enabled m))"
  by (cases c)
    (simp_all add: Init_def Let_def WorkflowOperationEvent_def ExecutionEvent_def IsEnabled_def)

lemma run_fields:
  "\<exists>m' b'. run cs (Some m, b) = Return (Some m', b') \<and>
     (appID m', namespace m', enabled m') =
       (case lastInit cs of
          Some p \<Rightarrow> (fst p, snd p, True)
        | None \<Rightarrow> (appID m, namespace m, enabled m))"
proof (induction cs arbitrary: m b)
  case Nil
  show ?case by simp
next
  case (Cons c cs)
  obtain m1 b1 where s: "step c (Some m, b) = Return (Some m1, b1)"
    and f1: "(appID m1, namespace m1, enabled m1) =
       (case c of InitCall a n \<Rightarrow> (a, n, True) | _ \<Rightarrow> (appID m, namespace m, enabled m))"
    using step_fields [of c m b] by blast
  obtain m2 b2 where r: "run cs (Some m1, b1) = Return (Some m2, b2)"
    and f2: "(appID m2, namespace m2, enabled m2) =
       (case lastInit cs of
          Some p \<Rightarrow> (fst p, snd p, True)
        | None \<Rightarrow> (appID m1, namespace m1, enabled m1))"
    using Cons.IH [of m1 b1] by blast
  have "run (c # cs) (Some m, b) = Return (Some m2, b2)"
    using s r by simp
  moreover have "(appID m2, namespace m2, enabled m2) =
       (case lastInit (c # cs) of
          Some p \<Rightarrow> (fst p, snd p, True)
        | None \<Rightarrow> (appID m, namespace m, enabled m))"
    using f1 f2 by (cases "lastInit cs"; cases c) simp_all
  ultimately show ?case by blast
qed

lemma run_append:
  "run (xs @ ys) s = (case run xs s of Panic \<Rightarrow> Panic | Return s' \<Rightarrow> run ys s')"
  by (induction xs arbitrary: s) (auto split: outcome.splits)

lemma lastInit_mem: "lastInit cs = Some (a, n) \<Longrightarrow> InitCall a n \<in> set cs"
  by (induction cs) (auto split: option.splits call.splits)

lemmas concrete_defs =
  freshBackend_def initialised_def newWorkflowMetrics_def NewMeasureView_def Int64_def
  Float64_def operationCountView_def operationLatencyView_def executionCountView_def
  executionLatencyView_def earlierExecutionLatencyView_def occupiedBackend_def
  afterInit_def afterFailedInit_def

lemmas constant_defs =
  appIDKey_def componentKey_def namespaceKey_def operationKey_def statusKey_def
  executionTypeKey_def CreateWorkflow_def ComponentName_def StatusSuccess_def
  StatusFailed_def Activity_def

section \<open>The claims\<close>

subsection \<open>Init\<close>

text \<open>
  Claim C1, as the spec states it: \<^verbatim>\<open>Init\<close> sets the enabled flag only if every view
  registration succeeds, and a failed \<^verbatim>\<open>Init\<close> returns the error with the flag still
  false, so that later recording calls stay no-ops. The code sets the flag before it
  registers anything. On a backend that already holds a view named
  \<^verbatim>\<open>runtime/workflow/execution/latency\<close> with other tag keys, \<^verbatim>\<open>Init("a1", "ns1")\<close> on
  the freshly constructed struct returns the registration error, leaves the flag true, and
  the next \<^verbatim>\<open>WorkflowOperationEvent\<close> reaches the backend.
\<close>

theorem Init_failed_registration_enables:
  "Init ''a1'' ''ns1'' (Some newWorkflowMetrics) occupiedBackend =
     Return (Some RegistrationError, Some initialised, afterFailedInit) \<and>
   IsEnabled (Some initialised) \<and>
   WorkflowOperationEvent () CreateWorkflow ComponentName StatusSuccess (Finite 0)
       (Some initialised) afterFailedInit =
     Return (Some initialised,
       afterFailedInit\<lparr>recorded :=
         [\<lparr>callCtx = (),
           callMutators = [Upsert ''app_id'' ''a1'', Upsert ''component'' ''dapr'',
             Upsert ''namespace'' ''ns1'', Upsert ''operation'' ''create_workflow'',
             Upsert ''status'' ''success''],
           callMeasurements = [Int64M (workflowOperationCount newWorkflowMetrics) 1]\<rparr>]\<rparr>)"
  using keys_differ
  by (simp add: Init_def Register_def Let_def compatible_def WorkflowOperationEvent_def
      IsEnabled_def RecordWithTags_def WithTags_def concrete_defs
      appIDKey_def componentKey_def namespaceKey_def operationKey_def statusKey_def
      CreateWorkflow_def ComponentName_def StatusSuccess_def)

text \<open>
  Claim C1, amended: on a constructed struct \<^verbatim>\<open>Init(appID, namespace)\<close> stores the two
  strings and sets the enabled flag in every case, whether or not the registration
  succeeds, and returns what the registration of its four views returns. So after a
  failed \<^verbatim>\<open>Init\<close> the error is returned, \<^verbatim>\<open>IsEnabled\<close> is true, and neither recording
  call is a no-op.
\<close>

theorem Init_enables_unconditionally:
  "Init a n (Some m) b =
     Return
       (fst (Register
          [NewMeasureView (workflowOperationCount m)
             [appIDKey, componentKey, namespaceKey, operationKey, statusKey] Count,
           NewMeasureView (workflowOperationLatency m)
             [appIDKey, componentKey, namespaceKey, operationKey, statusKey]
             defaultLatencyDistribution,
           NewMeasureView (workflowExecutionCount m)
             [appIDKey, componentKey, namespaceKey, executionTypeKey, statusKey] Count,
           NewMeasureView (workflowExecutionLatency m)
             [appIDKey, componentKey, namespaceKey, executionTypeKey, statusKey]
             defaultLatencyDistribution] b),
        Some (m\<lparr>appID := a, enabled := True, namespace := n\<rparr>),
        snd (Register
          [NewMeasureView (workflowOperationCount m)
             [appIDKey, componentKey, namespaceKey, operationKey, statusKey] Count,
           NewMeasureView (workflowOperationLatency m)
             [appIDKey, componentKey, namespaceKey, operationKey, statusKey]
             defaultLatencyDistribution,
           NewMeasureView (workflowExecutionCount m)
             [appIDKey, componentKey, namespaceKey, executionTypeKey, statusKey] Count,
           NewMeasureView (workflowExecutionLatency m)
             [appIDKey, componentKey, namespaceKey, executionTypeKey, statusKey]
             defaultLatencyDistribution] b)) \<and>
   IsEnabled (Some (m\<lparr>appID := a, enabled := True, namespace := n\<rparr>)) \<and>
   WorkflowOperationEvent ctx operation component status elapsed
       (Some (m\<lparr>appID := a, enabled := True, namespace := n\<rparr>)) b' \<noteq>
     Return (Some (m\<lparr>appID := a, enabled := True, namespace := n\<rparr>), b') \<and>
   ExecutionEvent ctx component executionType status elapsed
       (Some (m\<lparr>appID := a, enabled := True, namespace := n\<rparr>)) b' \<noteq>
     Return (Some (m\<lparr>appID := a, enabled := True, namespace := n\<rparr>), b')"
proof -
  let ?m = "m\<lparr>appID := a, enabled := True, namespace := n\<rparr>"
  have "WorkflowOperationEvent ctx operation component status elapsed (Some ?m) b' \<noteq>
      Return (Some ?m, b')"
    by (auto simp: WorkflowOperationEvent_def IsEnabled_def Let_def RecordWithTags_def
        dest!: arg_cong [where f = recorded])
  moreover have "ExecutionEvent ctx component executionType status elapsed (Some ?m) b' \<noteq>
      Return (Some ?m, b')"
    by (auto simp: ExecutionEvent_def IsEnabled_def Let_def RecordWithTags_def
        dest!: arg_cong [where f = recorded])
  ultimately show ?thesis
    by (simp add: Init_def Let_def IsEnabled_def)
qed

text \<open>
  Claim C6: \<^verbatim>\<open>IsEnabled()\<close> is false on the freshly constructed struct, before any
  \<^verbatim>\<open>Init\<close>, and true on the receiver right after an \<^verbatim>\<open>Init\<close> that returned no error.
\<close>

theorem IsEnabled_before_and_after_Init:
  "\<not> IsEnabled (Some newWorkflowMetrics) \<and>
   (Init a n w b = Return (None, w', b') \<longrightarrow> IsEnabled w')"
  by (cases w) (auto simp: IsEnabled_def newWorkflowMetrics_def Init_def Let_def)

theorem IsEnabled_before_and_after_Init_witness:
  "\<not> IsEnabled (Some newWorkflowMetrics) \<and>
   Init ''a1'' ''ns1'' (Some newWorkflowMetrics) freshBackend =
     Return (None, Some initialised, afterInit) \<and>
   IsEnabled (Some initialised)"
proof -
  have h: "Init ''a1'' ''ns1'' (Some newWorkflowMetrics) freshBackend =
     Return (None, Some initialised, afterInit)"
    by (simp add: Init_def Register_def Let_def compatible_def concrete_defs)
  show ?thesis
    using h IsEnabled_before_and_after_Init
      [of "''a1''" "''ns1''" "Some newWorkflowMetrics" freshBackend "Some initialised" afterInit]
    by simp
qed

text \<open>
  Claim C8: a second \<^verbatim>\<open>Init\<close> with the arguments of an \<^verbatim>\<open>Init\<close> that succeeded does not
  panic and is the idempotent success, the first of the two outcomes the claim allows: it
  returns no error and leaves the struct and the backend exactly as the first call left
  them.
\<close>

theorem Init_twice:
  assumes "Init a n w b = Return (None, w1, b1)"
  shows "Init a n w1 b1 = Return (None, w1, b1)"
proof (cases w)
  case None
  with assms show ?thesis by (simp add: Init_def)
next
  case (Some m)
  let ?m = "m\<lparr>appID := a, enabled := True, namespace := n\<rparr>"
  let ?vs = "[NewMeasureView (workflowOperationCount m)
                [appIDKey, componentKey, namespaceKey, operationKey, statusKey] Count,
              NewMeasureView (workflowOperationLatency m)
                [appIDKey, componentKey, namespaceKey, operationKey, statusKey]
                defaultLatencyDistribution,
              NewMeasureView (workflowExecutionCount m)
                [appIDKey, componentKey, namespaceKey, executionTypeKey, statusKey] Count,
              NewMeasureView (workflowExecutionLatency m)
                [appIDKey, componentKey, namespaceKey, executionTypeKey, statusKey]
                defaultLatencyDistribution]"
  from assms Some have w1: "w1 = Some ?m" and r: "Register ?vs b = (None, b1)"
    by (auto simp: Init_def Let_def prod_eq_iff)
  from r have "Register ?vs b1 = (None, b1)" by (rule Register_idem)
  with w1 show ?thesis by (simp add: Init_def Let_def)
qed

theorem Init_twice_witness:
  "Init ''a1'' ''ns1'' (Some newWorkflowMetrics) freshBackend =
     Return (None, Some initialised, afterInit) \<and>
   Init ''a1'' ''ns1'' (Some initialised) afterInit =
     Return (None, Some initialised, afterInit)"
proof -
  have h: "Init ''a1'' ''ns1'' (Some newWorkflowMetrics) freshBackend =
     Return (None, Some initialised, afterInit)"
    by (simp add: Init_def Register_def Let_def compatible_def concrete_defs)
  from h Init_twice [OF h] show ?thesis by simp
qed

subsection \<open>IsEnabled on a nil receiver\<close>

text \<open>
  Claim C10: \<^verbatim>\<open>IsEnabled()\<close> on a nil receiver returns false. It does not panic: the
  nil test comes first and the field is not read.
\<close>

theorem IsEnabled_nil: "IsEnabled None = False"
  by (simp add: IsEnabled_def)

subsection \<open>The recording calls\<close>

text \<open>
  Claim C2: while \<^verbatim>\<open>IsEnabled()\<close> is false, on a nil receiver too,
  \<^verbatim>\<open>WorkflowOperationEvent\<close> and \<^verbatim>\<open>ExecutionEvent\<close> return without panicking, with the
  receiver and the backend as they were: nothing is recorded and nothing is changed.
\<close>

theorem disabled_calls_are_noops:
  assumes "\<not> IsEnabled w"
  shows "WorkflowOperationEvent ctx operation component status elapsed w b = Return (w, b) \<and>
    ExecutionEvent ctx component executionType status elapsed w b = Return (w, b)"
  using assms by (simp add: WorkflowOperationEvent_def ExecutionEvent_def)

theorem disabled_calls_are_noops_witness:
  "\<not> IsEnabled None \<and>
   WorkflowOperationEvent () CreateWorkflow ComponentName StatusSuccess (Finite 12.5)
     None freshBackend = Return (None, freshBackend) \<and>
   ExecutionEvent () ComponentName Activity StatusSuccess (Finite 12.5)
     None freshBackend = Return (None, freshBackend) \<and>
   \<not> IsEnabled (Some newWorkflowMetrics) \<and>
   WorkflowOperationEvent () CreateWorkflow ComponentName StatusSuccess (Finite 12.5)
     (Some newWorkflowMetrics) freshBackend = Return (Some newWorkflowMetrics, freshBackend) \<and>
   ExecutionEvent () ComponentName Activity StatusSuccess (Finite 12.5)
     (Some newWorkflowMetrics) freshBackend = Return (Some newWorkflowMetrics, freshBackend)"
proof -
  have nil: "\<not> IsEnabled None"
    by (simp add: IsEnabled_def)
  have fresh: "\<not> IsEnabled (Some newWorkflowMetrics)"
    by (simp add: IsEnabled_def newWorkflowMetrics_def)
  show ?thesis
    using nil fresh
      disabled_calls_are_noops [OF nil, where ctx = "()" and operation = CreateWorkflow
        and component = ComponentName and status = StatusSuccess and elapsed = "Finite 12.5"
        and b = freshBackend and executionType = Activity]
      disabled_calls_are_noops [OF fresh, where ctx = "()" and operation = CreateWorkflow
        and component = ComponentName and status = StatusSuccess and elapsed = "Finite 12.5"
        and b = freshBackend and executionType = Activity]
    by simp
qed

text \<open>
  Claim C3: in the enabled state \<^verbatim>\<open>WorkflowOperationEvent\<close> hands the backend exactly one
  increment of 1 on the operation counter, tagged with the app id, the component, the
  namespace, the operation and the status, followed by exactly one observation of
  \<open>elapsed\<close> on the operation latency with the same tags when \<open>elapsed > 0\<close>, and by
  nothing otherwise.
\<close>

theorem WorkflowOperationEvent_enabled:
  assumes "IsEnabled (Some m)"
  shows "WorkflowOperationEvent ctx operation component status elapsed (Some m) b =
    Return (Some m,
      b\<lparr>recorded := recorded b @
        \<lparr>callCtx = ctx,
          callMutators = [Upsert appIDKey (appID m), Upsert componentKey component,
            Upsert namespaceKey (namespace m), Upsert operationKey operation,
            Upsert statusKey status],
          callMeasurements = [Int64M (workflowOperationCount m) 1]\<rparr> #
        (if gt_zero elapsed
         then [\<lparr>callCtx = ctx,
                callMutators = [Upsert appIDKey (appID m), Upsert componentKey component,
                  Upsert namespaceKey (namespace m), Upsert operationKey operation,
                  Upsert statusKey status],
                callMeasurements = [Float64M (workflowOperationLatency m) elapsed]\<rparr>]
         else [])\<rparr>)"
  using assms
  by (simp add: WorkflowOperationEvent_def RecordWithTags_def WithTags_def)

theorem WorkflowOperationEvent_enabled_witness:
  "IsEnabled (Some initialised) \<and>
   WorkflowOperationEvent () CreateWorkflow ComponentName StatusSuccess (Finite 12.5)
       (Some initialised) afterInit =
     Return (Some initialised,
       afterInit\<lparr>recorded :=
         [\<lparr>callCtx = (),
           callMutators = [Upsert ''app_id'' ''a1'', Upsert ''component'' ''dapr'',
             Upsert ''namespace'' ''ns1'', Upsert ''operation'' ''create_workflow'',
             Upsert ''status'' ''success''],
           callMeasurements = [Int64M (workflowOperationCount newWorkflowMetrics) 1]\<rparr>,
          \<lparr>callCtx = (),
           callMutators = [Upsert ''app_id'' ''a1'', Upsert ''component'' ''dapr'',
             Upsert ''namespace'' ''ns1'', Upsert ''operation'' ''create_workflow'',
             Upsert ''status'' ''success''],
           callMeasurements =
             [Float64M (workflowOperationLatency newWorkflowMetrics) (Finite 12.5)]\<rparr>]\<rparr>) \<and>
   WorkflowOperationEvent () CreateWorkflow ComponentName StatusSuccess (Finite 0)
       (Some initialised) afterInit =
     Return (Some initialised,
       afterInit\<lparr>recorded :=
         [\<lparr>callCtx = (),
           callMutators = [Upsert ''app_id'' ''a1'', Upsert ''component'' ''dapr'',
             Upsert ''namespace'' ''ns1'', Upsert ''operation'' ''create_workflow'',
             Upsert ''status'' ''success''],
           callMeasurements = [Int64M (workflowOperationCount newWorkflowMetrics) 1]\<rparr>]\<rparr>)"
proof -
  have h: "IsEnabled (Some initialised)"
    by (simp add: IsEnabled_def initialised_def)
  show ?thesis
    using h
      WorkflowOperationEvent_enabled [OF h, of "()" CreateWorkflow ComponentName StatusSuccess
        "Finite 12.5" afterInit]
      WorkflowOperationEvent_enabled [OF h, of "()" CreateWorkflow ComponentName StatusSuccess
        "Finite 0" afterInit]
    by (simp add: initialised_def afterInit_def constant_defs)
qed

text \<open>
  Claim C4: in the enabled state \<^verbatim>\<open>ExecutionEvent\<close> hands the backend exactly one
  increment of 1 on the execution counter, tagged with the app id, the component, the
  namespace, the execution type and the status, followed by exactly one observation of
  \<open>elapsed\<close> on the execution latency with the same tags when \<open>elapsed > 0\<close>, and by
  nothing otherwise; with \<open>elapsed = 0\<close> there is the increment and no latency record.
\<close>

theorem ExecutionEvent_enabled:
  assumes "IsEnabled (Some m)"
  shows "ExecutionEvent ctx component executionType status elapsed (Some m) b =
    Return (Some m,
      b\<lparr>recorded := recorded b @
        \<lparr>callCtx = ctx,
          callMutators = [Upsert appIDKey (appID m), Upsert componentKey component,
            Upsert namespaceKey (namespace m), Upsert executionTypeKey executionType,
            Upsert statusKey status],
          callMeasurements = [Int64M (workflowExecutionCount m) 1]\<rparr> #
        (if gt_zero elapsed
         then [\<lparr>callCtx = ctx,
                callMutators = [Upsert appIDKey (appID m), Upsert componentKey component,
                  Upsert namespaceKey (namespace m), Upsert executionTypeKey executionType,
                  Upsert statusKey status],
                callMeasurements = [Float64M (workflowExecutionLatency m) elapsed]\<rparr>]
         else [])\<rparr>) \<and>
    ExecutionEvent ctx component executionType status (Finite 0) (Some m) b =
    Return (Some m,
      b\<lparr>recorded := recorded b @
        [\<lparr>callCtx = ctx,
          callMutators = [Upsert appIDKey (appID m), Upsert componentKey component,
            Upsert namespaceKey (namespace m), Upsert executionTypeKey executionType,
            Upsert statusKey status],
          callMeasurements = [Int64M (workflowExecutionCount m) 1]\<rparr>]\<rparr>)"
  using assms
  by (simp add: ExecutionEvent_def RecordWithTags_def WithTags_def)

theorem ExecutionEvent_enabled_witness:
  "IsEnabled (Some initialised) \<and>
   ExecutionEvent () ComponentName Activity StatusFailed (Finite 0)
       (Some initialised) afterInit =
     Return (Some initialised,
       afterInit\<lparr>recorded :=
         [\<lparr>callCtx = (),
           callMutators = [Upsert ''app_id'' ''a1'', Upsert ''component'' ''dapr'',
             Upsert ''namespace'' ''ns1'', Upsert ''execution_type'' ''activity'',
             Upsert ''status'' ''failed''],
           callMeasurements = [Int64M (workflowExecutionCount newWorkflowMetrics) 1]\<rparr>]\<rparr>) \<and>
   ExecutionEvent () ComponentName Activity StatusFailed (Finite 12.5)
       (Some initialised) afterInit =
     Return (Some initialised,
       afterInit\<lparr>recorded :=
         [\<lparr>callCtx = (),
           callMutators = [Upsert ''app_id'' ''a1'', Upsert ''component'' ''dapr'',
             Upsert ''namespace'' ''ns1'', Upsert ''execution_type'' ''activity'',
             Upsert ''status'' ''failed''],
           callMeasurements = [Int64M (workflowExecutionCount newWorkflowMetrics) 1]\<rparr>,
          \<lparr>callCtx = (),
           callMutators = [Upsert ''app_id'' ''a1'', Upsert ''component'' ''dapr'',
             Upsert ''namespace'' ''ns1'', Upsert ''execution_type'' ''activity'',
             Upsert ''status'' ''failed''],
           callMeasurements =
             [Float64M (workflowExecutionLatency newWorkflowMetrics) (Finite 12.5)]\<rparr>]\<rparr>)"
proof -
  have h: "IsEnabled (Some initialised)"
    by (simp add: IsEnabled_def initialised_def)
  show ?thesis
    using h
      ExecutionEvent_enabled [OF h, of "()" ComponentName Activity StatusFailed
        "Finite 0" afterInit]
      ExecutionEvent_enabled [OF h, of "()" ComponentName Activity StatusFailed
        "Finite 12.5" afterInit]
    by (simp add: initialised_def afterInit_def constant_defs)
qed

text \<open>
  Claim C7: in any state, a nil receiver included, \<^verbatim>\<open>WorkflowOperationEvent\<close> and
  \<^verbatim>\<open>ExecutionEvent\<close> return with the receiver as it was, every field of the struct
  unchanged. The backend keeps its registered views and the observations it already had;
  the call only appends observations to them.
\<close>

theorem recording_calls_frame:
  "(\<exists>obs. WorkflowOperationEvent ctx operation component status elapsed w b =
      Return (w, b\<lparr>recorded := recorded b @ obs\<rparr>)) \<and>
   (\<exists>obs. ExecutionEvent ctx component executionType status elapsed w b =
      Return (w, b\<lparr>recorded := recorded b @ obs\<rparr>))"
proof (cases "IsEnabled w")
  case False
  have "b = b\<lparr>recorded := recorded b @ []\<rparr>" by simp
  with False show ?thesis
    unfolding WorkflowOperationEvent_def ExecutionEvent_def
    by (intro conjI exI [of _ "[]"]) simp_all
next
  case True
  then obtain m where w: "w = Some m"
    by (cases w) (simp_all add: IsEnabled_def)
  show ?thesis
    using True unfolding w
    by (cases "gt_zero elapsed")
      (simp_all add: WorkflowOperationEvent_def ExecutionEvent_def RecordWithTags_def Let_def,
        blast+)
qed

subsection \<open>Reachable states\<close>

text \<open>
  Claim C5: every sequence of \<^verbatim>\<open>Init\<close> and recording calls on the freshly constructed
  struct runs to the end without a panic, and in the state it reaches: if \<open>enabled\<close> is
  true, then \<open>appID\<close> and \<open>namespace\<close> are the arguments of the latest \<^verbatim>\<open>Init\<close> of the
  sequence (so they are non-empty when every \<^verbatim>\<open>Init\<close> was given non-empty strings), and
  \<open>enabled\<close> is still true after any further calls.
\<close>

theorem enabled_invariant:
  "\<exists>m b. run calls (Some newWorkflowMetrics, b0) = Return (Some m, b) \<and>
     (enabled m \<longrightarrow> lastInit calls = Some (appID m, namespace m)) \<and>
     (enabled m \<longrightarrow> (\<forall>a n. InitCall a n \<in> set calls \<longrightarrow> a \<noteq> [] \<and> n \<noteq> []) \<longrightarrow>
        appID m \<noteq> [] \<and> namespace m \<noteq> []) \<and>
     (enabled m \<longrightarrow>
        (\<forall>more. \<exists>m' b'.
           run (calls @ more) (Some newWorkflowMetrics, b0) = Return (Some m', b') \<and>
           enabled m'))"
proof -
  obtain m b where r: "run calls (Some newWorkflowMetrics, b0) = Return (Some m, b)"
    and f: "(appID m, namespace m, enabled m) =
       (case lastInit calls of
          Some p \<Rightarrow> (fst p, snd p, True)
        | None \<Rightarrow> (appID newWorkflowMetrics, namespace newWorkflowMetrics,
            enabled newWorkflowMetrics))"
    using run_fields [of calls newWorkflowMetrics b0] by blast
  have last: "lastInit calls = Some (appID m, namespace m)" if "enabled m"
    using f that by (cases "lastInit calls") (simp_all add: newWorkflowMetrics_def)
  have populated: "appID m \<noteq> [] \<and> namespace m \<noteq> []"
    if "enabled m" and "\<forall>a n. InitCall a n \<in> set calls \<longrightarrow> a \<noteq> [] \<and> n \<noteq> []"
    using lastInit_mem [OF last [OF that(1)]] that(2) by blast
  have stays: "\<exists>m' b'. run (calls @ more) (Some newWorkflowMetrics, b0) =
      Return (Some m', b') \<and> enabled m'" if "enabled m" for more
  proof -
    obtain m' b' where r': "run more (Some m, b) = Return (Some m', b')"
      and f': "(appID m', namespace m', enabled m') =
         (case lastInit more of
            Some p \<Rightarrow> (fst p, snd p, True)
          | None \<Rightarrow> (appID m, namespace m, enabled m))"
      using run_fields [of more m b] by blast
    have "enabled m'" using f' that by (cases "lastInit more") simp_all
    moreover have "run (calls @ more) (Some newWorkflowMetrics, b0) = Return (Some m', b')"
      using r r' by (simp add: run_append)
    ultimately show ?thesis by blast
  qed
  show ?thesis using r last populated stays by blast
qed

theorem enabled_invariant_witness:
  "run [InitCall ''a1'' ''ns1'',
        WorkflowOperationEventCall () CreateWorkflow ComponentName StatusSuccess (Finite 0)]
     (Some newWorkflowMetrics, freshBackend) =
     Return (Some initialised,
       afterInit\<lparr>recorded :=
         [\<lparr>callCtx = (),
           callMutators = [Upsert ''app_id'' ''a1'', Upsert ''component'' ''dapr'',
             Upsert ''namespace'' ''ns1'', Upsert ''operation'' ''create_workflow'',
             Upsert ''status'' ''success''],
           callMeasurements = [Int64M (workflowOperationCount newWorkflowMetrics) 1]\<rparr>]\<rparr>) \<and>
   enabled initialised \<and>
   lastInit [InitCall ''a1'' ''ns1'',
        WorkflowOperationEventCall () CreateWorkflow ComponentName StatusSuccess (Finite 0)] =
     Some (appID initialised, namespace initialised) \<and>
   appID initialised = ''a1'' \<and> namespace initialised = ''ns1'' \<and>
   run ([InitCall ''a1'' ''ns1'',
         WorkflowOperationEventCall () CreateWorkflow ComponentName StatusSuccess (Finite 0)] @
        [ExecutionEventCall () ComponentName Activity StatusFailed (Finite 0)])
     (Some newWorkflowMetrics, freshBackend) =
     Return (Some initialised,
       afterInit\<lparr>recorded :=
         [\<lparr>callCtx = (),
           callMutators = [Upsert ''app_id'' ''a1'', Upsert ''component'' ''dapr'',
             Upsert ''namespace'' ''ns1'', Upsert ''operation'' ''create_workflow'',
             Upsert ''status'' ''success''],
           callMeasurements = [Int64M (workflowOperationCount newWorkflowMetrics) 1]\<rparr>,
          \<lparr>callCtx = (),
           callMutators = [Upsert ''app_id'' ''a1'', Upsert ''component'' ''dapr'',
             Upsert ''namespace'' ''ns1'', Upsert ''execution_type'' ''activity'',
             Upsert ''status'' ''failed''],
           callMeasurements = [Int64M (workflowExecutionCount newWorkflowMetrics) 1]\<rparr>]\<rparr>)"
  using enabled_invariant [of "[InitCall ''a1'' ''ns1'',
        WorkflowOperationEventCall () CreateWorkflow ComponentName StatusSuccess (Finite 0)]"
      freshBackend]
  by (simp add: Init_def Register_def Let_def compatible_def WorkflowOperationEvent_def
      ExecutionEvent_def IsEnabled_def RecordWithTags_def WithTags_def concrete_defs
      constant_defs)

subsection \<open>Readers during Init\<close>

text \<open>
  Claim C9, as the spec states it: a recording call or \<^verbatim>\<open>IsEnabled\<close> that runs while
  \<^verbatim>\<open>Init\<close> runs sees the whole triple of before or the whole triple of after, never a
  mixture such as \<open>enabled\<close> true with \<open>namespace\<close> unset. During \<^verbatim>\<open>Init("a1", "ns1")\<close> on
  the freshly constructed struct, the contents after the second store are neither: there
  \<^verbatim>\<open>IsEnabled\<close> is true, \<open>appID\<close> is set and \<open>namespace\<close> is still empty, and a
  \<^verbatim>\<open>WorkflowOperationEvent\<close> that reads them records an observation tagged with the
  empty namespace.
\<close>

theorem Init_stores_are_not_one_publish:
  "InitStores ''a1'' ''ns1'' newWorkflowMetrics =
     [newWorkflowMetrics, newWorkflowMetrics\<lparr>appID := ''a1''\<rparr>, halfInitialised,
      initialised] \<and>
   IsEnabled (Some halfInitialised) \<and>
   appID halfInitialised = ''a1'' \<and>
   namespace halfInitialised = [] \<and>
   halfInitialised \<noteq> newWorkflowMetrics \<and>
   halfInitialised \<noteq> initialised \<and>
   WorkflowOperationEvent () CreateWorkflow ComponentName StatusSuccess (Finite 0)
       (Some halfInitialised) freshBackend =
     Return (Some halfInitialised,
       freshBackend\<lparr>recorded :=
         [\<lparr>callCtx = (),
           callMutators = [Upsert ''app_id'' ''a1'', Upsert ''component'' ''dapr'',
             Upsert ''namespace'' [], Upsert ''operation'' ''create_workflow'',
             Upsert ''status'' ''success''],
           callMeasurements = [Int64M (workflowOperationCount newWorkflowMetrics) 1]\<rparr>]\<rparr>)"
proof -
  have differ: "halfInitialised \<noteq> newWorkflowMetrics \<and> halfInitialised \<noteq> initialised"
    by (auto simp: halfInitialised_def initialised_def newWorkflowMetrics_def
        dest: arg_cong [where f = enabled] arg_cong [where f = namespace])
  show ?thesis
    using differ
    by (simp add: InitStores_def Let_def halfInitialised_def WorkflowOperationEvent_def
        IsEnabled_def RecordWithTags_def WithTags_def concrete_defs constant_defs)
qed

text \<open>
  Claim C9, amended: \<^verbatim>\<open>Init\<close> does not publish the triple in one step. It stores
  \<open>appID\<close>, then \<open>enabled\<close>, then \<open>namespace\<close>, with no synchronisation; the struct
  starts from the contents before the call and ends in the contents \<^verbatim>\<open>Init\<close> returns
  with, and between the second and the third store it holds a mixture: \<open>enabled\<close> true
  and \<open>appID\<close> new, with \<open>namespace\<close> still the old one. When \<^verbatim>\<open>Init\<close> starts from a
  disabled struct and changes the namespace, this mixture is neither the triple of before
  nor the triple of after, and nothing in the code keeps a call that runs during \<^verbatim>\<open>Init\<close>
  from reading it.
\<close>

theorem Init_stores_in_three_steps:
  "hd (InitStores a n m) = m \<and>
   (\<exists>err b'. Init a n (Some m) b = Return (err, Some (last (InitStores a n m)), b')) \<and>
   InitStores a n m ! 2 = m\<lparr>appID := a, enabled := True\<rparr> \<and>
   IsEnabled (Some (InitStores a n m ! 2)) \<and>
   appID (InitStores a n m ! 2) = a \<and>
   namespace (InitStores a n m ! 2) = namespace m \<and>
   (\<not> enabled m \<and> namespace m \<noteq> n \<longrightarrow>
      InitStores a n m ! 2 \<noteq> m \<and> InitStores a n m ! 2 \<noteq> last (InitStores a n m))"
proof -
  have two: "InitStores a n m ! 2 = m\<lparr>appID := a, enabled := True\<rparr>"
    by (simp add: InitStores_def Let_def numeral_2_eq_2)
  have final: "last (InitStores a n m) = m\<lparr>appID := a, enabled := True, namespace := n\<rparr>"
    by (simp add: InitStores_def Let_def)
  have "m\<lparr>appID := a, enabled := True\<rparr> \<noteq> m" if "\<not> enabled m"
    using that by (auto dest: arg_cong [where f = enabled])
  moreover have "m\<lparr>appID := a, enabled := True\<rparr> \<noteq>
      m\<lparr>appID := a, enabled := True, namespace := n\<rparr>" if "namespace m \<noteq> n"
    using that by (auto dest: arg_cong [where f = namespace])
  moreover have "hd (InitStores a n m) = m"
    by (simp add: InitStores_def Let_def)
  moreover have "\<exists>err b'. Init a n (Some m) b =
      Return (err, Some (last (InitStores a n m)), b')"
    unfolding final by (simp add: Init_def Let_def)
  ultimately show ?thesis
    unfolding two final by (simp add: IsEnabled_def)
qed

theorem Init_stores_in_three_steps_witness:
  "\<not> enabled newWorkflowMetrics \<and>
   namespace newWorkflowMetrics \<noteq> ''ns1'' \<and>
   hd (InitStores ''a1'' ''ns1'' newWorkflowMetrics) = newWorkflowMetrics \<and>
   last (InitStores ''a1'' ''ns1'' newWorkflowMetrics) = initialised \<and>
   InitStores ''a1'' ''ns1'' newWorkflowMetrics ! 2 = halfInitialised \<and>
   IsEnabled (Some halfInitialised) \<and>
   namespace halfInitialised = namespace newWorkflowMetrics \<and>
   halfInitialised \<noteq> newWorkflowMetrics \<and>
   halfInitialised \<noteq> initialised"
proof -
  have pre: "\<not> enabled newWorkflowMetrics \<and> namespace newWorkflowMetrics \<noteq> ''ns1''"
    by (simp add: newWorkflowMetrics_def)
  have two: "InitStores ''a1'' ''ns1'' newWorkflowMetrics ! 2 = halfInitialised"
    by (simp add: InitStores_def Let_def halfInitialised_def numeral_2_eq_2)
  have final: "last (InitStores ''a1'' ''ns1'' newWorkflowMetrics) = initialised"
    by (simp add: InitStores_def Let_def initialised_def)
  show ?thesis
    using pre Init_stores_in_three_steps
      [where a = "''a1''" and n = "''ns1''" and m = newWorkflowMetrics and b = freshBackend]
    unfolding two final by simp
qed

end
